theory Spec2Isabelle
  imports Complex_Main "HOL-Library.Multiset"
begin

section \<open>JavaScript values used by the retrieval engine\<close>

text \<open>
  The engine is the class \<open>AISearchEngine\<close> of \<open>server.js\<close>. Strings are lists of
  characters, one character for each code unit that the JavaScript \<open>length\<close> counts; case
  conversion is modelled on the ASCII letters. Numbers are IEEE doubles in the source; they
  are modelled as real numbers, extended by the three special values a division can
  produce. Rounding and overflow of doubles are outside this model.
\<close>

datatype jsnum = Num real | PInf | NInf | NaN

datatype js_error = TypeError | EmbeddingError

type_synonym vec = "real list"

text \<open>\<open>x / y\<close> for a numerator that may already be \<open>NaN\<close> and a finite denominator.\<close>

fun js_div :: "jsnum \<Rightarrow> real \<Rightarrow> jsnum" where
  "js_div (Num x) y =
     (if y = 0 then (if x = 0 then NaN else if 0 < x then PInf else NInf) else Num (x / y))"
| "js_div PInf y = (if y < 0 then NInf else PInf)"
| "js_div NInf y = (if y < 0 then PInf else NInf)"
| "js_div NaN y = NaN"

fun js_sub :: "jsnum \<Rightarrow> jsnum \<Rightarrow> jsnum" where
  "js_sub (Num x) (Num y) = Num (x - y)"
| "js_sub NaN b = NaN"
| "js_sub a NaN = NaN"
| "js_sub PInf PInf = NaN"
| "js_sub NInf NInf = NaN"
| "js_sub PInf b = PInf"
| "js_sub NInf b = NInf"
| "js_sub (Num x) PInf = NInf"
| "js_sub (Num x) NInf = PInf"

text \<open>The test \<open>v > 0\<close> that \<open>Array.prototype.sort\<close> applies to a comparator's result
  (a \<open>NaN\<close> result counts as \<open>+0\<close>).\<close>

fun js_positive :: "jsnum \<Rightarrow> bool" where
  "js_positive (Num x) = (0 < x)"
| "js_positive PInf = True"
| "js_positive NInf = False"
| "js_positive NaN = False"


fun is_num :: "jsnum \<Rightarrow> bool" where
  "is_num (Num x) = True"
| "is_num v = False"


subsection \<open>Arrays\<close>

text \<open>\<open>xs[i]\<close>: \<open>undefined\<close> (here \<open>None\<close>) out of range.\<close>

definition nth_opt :: "'a list \<Rightarrow> nat \<Rightarrow> 'a option" where
  "nth_opt xs i = (if i < length xs then Some (xs ! i) else None)"

text \<open>\<open>xs.slice(-n)\<close>: from index \<open>max (length - n) 0\<close> to the end.\<close>

definition slice_last :: "nat \<Rightarrow> 'a list \<Rightarrow> 'a list" where
  "slice_last n xs = drop (length xs - n) xs"

text \<open>
  \<open>xs.sort(cmp)\<close>, given as \<open>after a b \<longleftrightarrow> cmp(a, b) > 0\<close>. The sort of ECMAScript is
  stable; for a consistent comparator every stable sort returns the list computed here.
  For an inconsistent comparator (one that sees \<open>NaN\<close>) the standard leaves the order
  to the engine; the insertion order below is then one admissible outcome.
\<close>

fun insert_sorted :: "('a \<Rightarrow> 'a \<Rightarrow> bool) \<Rightarrow> 'a \<Rightarrow> 'a list \<Rightarrow> 'a list" where
  "insert_sorted after x [] = [x]"
| "insert_sorted after x (y # ys) =
     (if after x y then y # insert_sorted after x ys else x # y # ys)"

definition js_sort :: "('a \<Rightarrow> 'a \<Rightarrow> bool) \<Rightarrow> 'a list \<Rightarrow> 'a list" where
  "js_sort after xs = foldr (insert_sorted after) xs []"

subsection \<open>Strings\<close>

definition lower_char :: "char \<Rightarrow> char" where
  "lower_char c =
     (case map_of (zip ''ABCDEFGHIJKLMNOPQRSTUVWXYZ'' ''abcdefghijklmnopqrstuvwxyz'') c of
        None \<Rightarrow> c | Some d \<Rightarrow> d)"

definition toLowerCase :: "string \<Rightarrow> string" where
  "toLowerCase s = map lower_char s"

definition startsWith :: "string \<Rightarrow> string \<Rightarrow> bool" where
  "startsWith s p = (take (length p) s = p)"

text \<open>\<open>s.includes(sub)\<close>: \<open>sub\<close> occurs in \<open>s\<close> as a contiguous substring.\<close>

fun js_includes :: "string \<Rightarrow> string \<Rightarrow> bool" where
  "js_includes [] sub = (sub = [])"
| "js_includes (c # cs) sub = (startsWith (c # cs) sub \<or> js_includes cs sub)"

text \<open>\<open>s.split(' ')\<close>: the pieces between single space characters, empty pieces kept.\<close>

fun js_split :: "string \<Rightarrow> string list" where
  "js_split [] = [[]]"
| "js_split (c # cs) =
     (if c = CHR '' '' then [] # js_split cs
      else (case js_split cs of [] \<Rightarrow> [[c]] | t # ts \<Rightarrow> (c # t) # ts))"

text \<open>\<open>xs.join(sep)\<close> on an array of strings.\<close>

fun js_join :: "string \<Rightarrow> string list \<Rightarrow> string" where
  "js_join sep [] = []"
| "js_join sep [x] = x"
| "js_join sep (x # y # ys) = x @ sep @ js_join sep (y # ys)"

text \<open>\<open>n.toString()\<close> for a non-negative integer.\<close>

fun show_nat :: "nat \<Rightarrow> string" where
  "show_nat n =
     (if n < 10 then [''0123456789'' ! n]
      else show_nat (n div 10) @ [''0123456789'' ! (n mod 10)])"

definition is_digit :: "char \<Rightarrow> bool" where
  "is_digit c = (c \<in> set ''0123456789'')"

section \<open>The engine's state\<close>

record person =
  name :: string
  date :: string

record chunk_meta =
  source :: string
  page :: "nat option"

text \<open>The fields of \<open>AISearchEngine\<close>; \<open>metadata\<close> is a \<open>Map\<close>, kept in insertion order.\<close>

record engine =
  embeddings :: "vec list"
  texts :: "string list"
  chunkMetadata :: "chunk_meta list"
  metadata :: "(string \<times> person) list"

text \<open>One scored chunk, as built in \<open>findSimilarContent\<close>. A field read past the end of
  its array is \<open>undefined\<close>.\<close>

record item =
  score :: jsnum
  item_text :: "string option"
  item_metadata :: "chunk_meta option"

record turn =
  role :: string
  content :: string

section \<open>Cosine similarity and ranking\<close>

text \<open>
  \<open>vecA.reduce((sum, a, i) => sum + a * vecB[i], 0)\<close>: when \<open>vecB\<close> is shorter than
  \<open>vecA\<close>, some \<open>vecB[i]\<close> is \<open>undefined\<close> and the sum is \<open>NaN\<close>.
\<close>

definition dotProduct :: "vec \<Rightarrow> vec \<Rightarrow> jsnum" where
  "dotProduct vecA vecB =
     (if length vecB < length vecA then NaN
      else Num (foldl (\<lambda>sum (a, b). sum + a * b) 0 (zip vecA vecB)))"

definition norm_of :: "vec \<Rightarrow> real" where
  "norm_of v = sqrt (foldl (\<lambda>sum a. sum + a * a) 0 v)"

definition cosineSimilarity :: "vec \<Rightarrow> vec \<Rightarrow> jsnum" where
  "cosineSimilarity vecA vecB = js_div (dotProduct vecA vecB) (norm_of vecA * norm_of vecB)"

definition similarities :: "engine \<Rightarrow> vec \<Rightarrow> item list" where
  "similarities e queryEmbedding =
     map (\<lambda>(idx, emb).
            \<lparr>score = cosineSimilarity queryEmbedding emb,
             item_text = nth_opt (texts e) idx,
             item_metadata = nth_opt (chunkMetadata e) idx\<rparr>)
         (enumerate 0 (embeddings e))"

text \<open>\<open>item.metadata && item.metadata.source === sourceName\<close>\<close>

definition from_source :: "string \<Rightarrow> item \<Rightarrow> bool" where
  "from_source sourceName it =
     (case item_metadata it of None \<Rightarrow> False | Some m \<Rightarrow> source m = sourceName)"

text \<open>The candidates: \<open>if (sourceName)\<close> is false for \<open>null\<close> and for the empty string.\<close>

definition candidates :: "engine \<Rightarrow> vec \<Rightarrow> string option \<Rightarrow> item list" where
  "candidates e queryEmbedding sourceName =
     (case sourceName of
        None \<Rightarrow> similarities e queryEmbedding
      | Some n \<Rightarrow>
          if n \<noteq> [] then filter (from_source n) (similarities e queryEmbedding)
          else similarities e queryEmbedding)"

text \<open>The comparator \<open>(a, b) => b.score - a.score\<close>.\<close>

definition score_after :: "item \<Rightarrow> item \<Rightarrow> bool" where
  "score_after a b = js_positive (js_sub (score b) (score a))"

definition findSimilarContent :: "engine \<Rightarrow> vec \<Rightarrow> string option \<Rightarrow> item list" where
  "findSimilarContent e queryEmbedding sourceName =
     take 5 (js_sort score_after (candidates e queryEmbedding sourceName))"

section \<open>Loading the corpus\<close>

text \<open>
  \<open>initialize\<close> reads and parses two files. Reading a file and parsing it
  (\<open>fs.readFileSync\<close>, \<open>JSON.parse\<close>, \<open>csv.parse\<close>) belong to the platform: the model
  takes their outcome, \<open>None\<close> when the read or the parse throws, and otherwise the
  parsed value: an object with the three arrays, and the rows of the table. A file that
  parses to a value of another shape is outside this model.
\<close>

record artifact =
  art_embeddings :: "vec list"
  art_texts :: "string list"
  art_metadata :: "chunk_meta list"

datatype load_error = ArtifactError | TableError


text \<open>\<open>Map.prototype.set\<close>: an existing key keeps its place, a new key goes last.\<close>

fun map_set :: "string \<Rightarrow> 'v \<Rightarrow> (string \<times> 'v) list \<Rightarrow> (string \<times> 'v) list" where
  "map_set k v [] = [(k, v)]"
| "map_set k v ((k', v') # rest) =
     (if k' = k then (k, v) # rest else (k', v') # map_set k v rest)"

text \<open>\<open>records.forEach((record, index) => this.metadata.set((index + 1).toString(), record))\<close>\<close>

definition set_records :: "person list \<Rightarrow> (string \<times> person) list \<Rightarrow> (string \<times> person) list" where
  "set_records records m =
     fold (\<lambda>(index, record) acc. map_set (show_nat (index + 1)) record acc) (enumerate 0 records) m"

text \<open>The result is the error thrown, if any, and the state the engine is left in: the
  fields are assigned as the function proceeds, before a later step may throw.\<close>

definition initialize ::
  "engine \<Rightarrow> artifact option \<Rightarrow> person list option \<Rightarrow> load_error option \<times> engine" where
  "initialize e parsedArtifact parsedTable =
     (case parsedArtifact of
        None \<Rightarrow> (Some ArtifactError, e)
      | Some data \<Rightarrow>
          (let e1 = e\<lparr>embeddings := art_embeddings data,
                      texts := art_texts data,
                      chunkMetadata := art_metadata data\<rparr>
           in case parsedTable of
                None \<Rightarrow> (Some TableError, e1)
              | Some records \<Rightarrow> (None, e1\<lparr>metadata := set_records records (metadata e1)\<rparr>)))"

section \<open>Entity resolution\<close>

text \<open>The inner \<open>for (const part of nameParts)\<close>: true when it pushes a match and breaks.\<close>

fun scan_parts :: "string \<Rightarrow> string list \<Rightarrow> bool" where
  "scan_parts normalizedQuestion [] = False"
| "scan_parts normalizedQuestion (part # rest) =
     (if 2 < length part \<and> js_includes normalizedQuestion (toLowerCase part) then True
      else scan_parts normalizedQuestion rest)"

text \<open>The outer loop over \<open>this.metadata.entries()\<close>.\<close>

fun scan_registry :: "string \<Rightarrow> (string \<times> person) list \<Rightarrow> (string \<times> person) list" where
  "scan_registry normalizedQuestion [] = []"
| "scan_registry normalizedQuestion ((id', record) # rest) =
     (let normalizedName = toLowerCase (name record)
      in if js_includes normalizedQuestion normalizedName
         then (id', record) # scan_registry normalizedQuestion rest
         else if scan_parts normalizedQuestion (js_split normalizedName)
         then (id', record) # scan_registry normalizedQuestion rest
         else scan_registry normalizedQuestion rest)"

definition findAllNamesInQuestion :: "engine \<Rightarrow> string \<Rightarrow> (string \<times> person) list" where
  "findAllNamesInQuestion e question = scan_registry (toLowerCase question) (metadata e)"

section \<open>Query reformulation\<close>

definition contextualQuery :: "string \<Rightarrow> turn list \<Rightarrow> string" where
  "contextualQuery question history =
     (let recentHistory = slice_last 4 history
      in if length question < 60
            \<or> startsWith (toLowerCase question) ''why''
            \<or> startsWith (toLowerCase question) ''how''
            \<or> \<not> js_includes question ''?''
         then js_join '' '' (map content recentHistory) @ '' '' @ question
         else question)"

definition isComparative :: "string \<Rightarrow> bool" where
  "isComparative q =
     (js_includes (toLowerCase q) ''between'' \<or> js_includes (toLowerCase q) ''compare'')"

section \<open>Context assembly\<close>

text \<open>A value interpolated into a template string; \<open>undefined\<close> prints as itself.\<close>

definition show_page :: "nat option \<Rightarrow> string" where
  "show_page p = (case p of None \<Rightarrow> ''undefined'' | Some n \<Rightarrow> show_nat n)"

definition show_text :: "string option \<Rightarrow> string" where
  "show_text t = (case t of None \<Rightarrow> ''undefined'' | Some s \<Rightarrow> s)"

text \<open>\<open>xs.map(f)\<close> for a callback that may throw: the first exception ends the map.\<close>

fun map_err :: "('a \<Rightarrow> js_error + 'b) \<Rightarrow> 'a list \<Rightarrow> js_error + 'b list" where
  "map_err f [] = Inr []"
| "map_err f (x # xs) =
     (case f x of
        Inl err \<Rightarrow> Inl err
      | Inr y \<Rightarrow> (case map_err f xs of Inl err \<Rightarrow> Inl err | Inr ys \<Rightarrow> Inr (y # ys)))"

subsection \<open>Branch A: two or more matched names\<close>

record content_entry =
  c_text :: "string option"
  c_page :: "nat option"
  c_score :: jsnum

record doc_context =
  interviewId :: string
  interviewee :: string
  context_date :: string
  context_content :: "content_entry list"

text \<open>\<open>item => ({text: item.text, page: item.metadata.page, score: item.score})\<close>; reading
  \<open>page\<close> of an absent metadata object throws.\<close>

definition content_of :: "item \<Rightarrow> js_error + content_entry" where
  "content_of it =
     (case item_metadata it of
        None \<Rightarrow> Inl TypeError
      | Some m \<Rightarrow> Inr \<lparr>c_text = item_text it, c_page = page m, c_score = score it\<rparr>)"

definition documentName :: "string \<Rightarrow> string" where
  "documentName id' = ''document'' @ id' @ ''.pdf''"

text \<open>The loop \<open>for (const match of names)\<close>, with the embedding provider as a parameter:
  \<open>getEmbedding\<close> returns the vector or fails.\<close>

fun collect_contexts ::
  "engine \<Rightarrow> (string \<Rightarrow> js_error + vec) \<Rightarrow> string \<Rightarrow> (string \<times> person) list
     \<Rightarrow> js_error + doc_context list" where
  "collect_contexts e getEmbedding q [] = Inr []"
| "collect_contexts e getEmbedding q ((id', record) # rest) =
     (case getEmbedding q of
        Inl err \<Rightarrow> Inl err
      | Inr questionEmbedding \<Rightarrow>
          (let similarContent = findSimilarContent e questionEmbedding (Some (documentName id'))
           in case (if similarContent \<noteq> [] then
                      (case map_err content_of similarContent of
                         Inl err \<Rightarrow> Inl err
                       | Inr entries \<Rightarrow>
                           Inr [\<lparr>interviewId = id', interviewee = name record,
                                 context_date = date record, context_content = entries\<rparr>])
                    else Inr []) of
                Inl err \<Rightarrow> Inl err
              | Inr pushed \<Rightarrow>
                  (case collect_contexts e getEmbedding q rest of
                     Inl err \<Rightarrow> Inl err
                   | Inr later \<Rightarrow> Inr (pushed @ later))))"

definition render_entry :: "content_entry \<Rightarrow> string" where
  "render_entry c = ''[Page '' @ show_page (c_page c) @ ''] '' @ show_text (c_text c)"

definition header :: "string \<Rightarrow> string \<Rightarrow> string \<Rightarrow> string" where
  "header id' nm dt = ''Interview '' @ id' @ '' with '' @ nm @ '' ('' @ dt @ ''):\<newline>''"

definition render_context :: "doc_context \<Rightarrow> string" where
  "render_context c =
     header (interviewId c) (interviewee c) (context_date c)
       @ js_join ''\<newline>\<newline>'' (map render_entry (context_content c))"

definition render_contexts :: "doc_context list \<Rightarrow> string" where
  "render_contexts cs = js_join ''\<newline>\<newline>---\<newline>\<newline>'' (map render_context cs)"

definition branchA ::
  "engine \<Rightarrow> (string \<Rightarrow> js_error + vec) \<Rightarrow> string \<Rightarrow> (string \<times> person) list
     \<Rightarrow> js_error + string option" where
  "branchA e getEmbedding q names =
     (case collect_contexts e getEmbedding q names of
        Inl err \<Rightarrow> Inl err
      | Inr contexts \<Rightarrow> Inr (Some (render_contexts contexts)))"

subsection \<open>Branches B and C: the rest of the function\<close>

text \<open>One chunk under its header, as both branches print it. The record is the result of
  a lookup and may be \<open>undefined\<close>; reading its \<open>name\<close> then throws.\<close>

definition chunk_line :: "string \<Rightarrow> person option \<Rightarrow> item \<Rightarrow> js_error + string" where
  "chunk_line id' found it =
     (case found of
        None \<Rightarrow> Inl TypeError
      | Some record \<Rightarrow>
          (case item_metadata it of
             None \<Rightarrow> Inl TypeError
           | Some m \<Rightarrow>
               Inr (header id' (name record) (date record)
                      @ ''[Page '' @ show_page (page m) @ ''] '' @ show_text (item_text it))))"

text \<open>The own properties of \<open>Object.prototype\<close>: a lookup of one of them on the plain
  object \<open>groupedResults\<close> finds an inherited value without \<open>push\<close>.\<close>

definition proto_keys :: "string list" where
  "proto_keys =
     [''constructor'', ''__defineGetter__'', ''__defineSetter__'', ''hasOwnProperty'',
      ''__lookupGetter__'', ''__lookupSetter__'', ''isPrototypeOf'', ''propertyIsEnumerable'',
      ''toString'', ''valueOf'', ''__proto__'', ''toLocaleString'']"

text \<open>\<open>if (!g[source]) g[source] = []; g[source].push(item)\<close> on own properties, kept in
  the order of their creation.\<close>

fun add_to_group ::
  "string \<Rightarrow> item \<Rightarrow> (string \<times> item list) list \<Rightarrow> (string \<times> item list) list" where
  "add_to_group s it [] = [(s, [it])]"
| "add_to_group s it ((k, g) # rest) =
     (if k = s then (k, g @ [it]) # rest else (k, g) # add_to_group s it rest)"

definition group_step ::
  "(string \<times> item list) list \<Rightarrow> item \<Rightarrow> js_error + (string \<times> item list) list" where
  "group_step g it =
     (case item_metadata it of
        None \<Rightarrow> Inl TypeError
      | Some m \<Rightarrow>
          if source m \<in> set proto_keys then Inl TypeError
          else Inr (add_to_group (source m) it g))"

fun group_items ::
  "(string \<times> item list) list \<Rightarrow> item list \<Rightarrow> js_error + (string \<times> item list) list" where
  "group_items g [] = Inr g"
| "group_items g (it # its) =
     (case group_step g it of Inl err \<Rightarrow> Inl err | Inr g' \<Rightarrow> group_items g' its)"

text \<open>
  \<open>Object.entries\<close> lists the keys that are array indices first, in ascending numeric
  order, then the other keys in the order of their creation.
\<close>

definition digit_val :: "char \<Rightarrow> nat" where
  "digit_val c = (case map_of (zip ''0123456789'' [0 ..< 10]) c of None \<Rightarrow> 0 | Some d \<Rightarrow> d)"

definition index_value :: "string \<Rightarrow> nat" where
  "index_value s = foldl (\<lambda>n c. 10 * n + digit_val c) 0 s"

definition is_array_index :: "string \<Rightarrow> bool" where
  "is_array_index s =
     (s \<noteq> [] \<and> list_all is_digit s \<and> (s = ''0'' \<or> hd s \<noteq> CHR ''0'')
      \<and> index_value s < 4294967295)"

definition object_entries :: "(string \<times> 'v) list \<Rightarrow> (string \<times> 'v) list" where
  "object_entries g =
     sort_key (\<lambda>kv. index_value (fst kv)) (filter (\<lambda>kv. is_array_index (fst kv)) g)
       @ filter (\<lambda>kv. \<not> is_array_index (fst kv)) g"

text \<open>The comparator \<open>(a, b) => b[1].length - a[1].length\<close>.\<close>

definition size_after :: "string \<times> item list \<Rightarrow> string \<times> item list \<Rightarrow> bool" where
  "size_after a b = (0 < int (length (snd b)) - int (length (snd a)))"

text \<open>The regular expression \<open>/document(\d+)\.pdf/\<close>: the match that starts here, and the
  leftmost match. The group \<open>\d+\<close> is greedy, and no shorter run of digits can be
  followed by the dot.\<close>

definition match_here :: "string \<Rightarrow> string option" where
  "match_here s =
     (if startsWith s ''document'' then
        (let digits = takeWhile is_digit (drop 8 s);
             rest = dropWhile is_digit (drop 8 s)
         in if digits \<noteq> [] \<and> startsWith rest ''.pdf'' then Some digits else None)
      else None)"

fun match_document :: "string \<Rightarrow> string option" where
  "match_document [] = None"
| "match_document (c # cs) =
     (case match_here (c # cs) of Some d \<Rightarrow> Some d | None \<Rightarrow> match_document cs)"

definition branchC ::
  "engine \<Rightarrow> (string \<Rightarrow> js_error + vec) \<Rightarrow> string \<Rightarrow> js_error + string option" where
  "branchC e getEmbedding q =
     (case getEmbedding q of
        Inl err \<Rightarrow> Inl err
      | Inr questionEmbedding \<Rightarrow>
          (case group_items [] (findSimilarContent e questionEmbedding None) of
             Inl err \<Rightarrow> Inl err
           | Inr groupedResults \<Rightarrow>
               if groupedResults \<noteq> [] then
                 (case js_sort size_after (object_entries groupedResults) of
                    [] \<Rightarrow> Inl TypeError
                  | bestSource # others \<Rightarrow>
                      (case match_document (fst bestSource) of
                         None \<Rightarrow> Inl TypeError
                       | Some documentId \<Rightarrow>
                           (case map_err (chunk_line documentId
                                            (map_of (metadata e) documentId))
                                         (snd bestSource) of
                              Inl err \<Rightarrow> Inl err
                            | Inr lines \<Rightarrow> Inr (Some (js_join ''\<newline>\<newline>'' lines)))))
               else Inr None))"

definition branchB ::
  "engine \<Rightarrow> (string \<Rightarrow> js_error + vec) \<Rightarrow> string \<Rightarrow> (string \<times> person) list
     \<Rightarrow> js_error + string option" where
  "branchB e getEmbedding q names =
     (case names of
        [] \<Rightarrow> branchC e getEmbedding q
      | (id', record) # others \<Rightarrow>
          (case getEmbedding q of
             Inl err \<Rightarrow> Inl err
           | Inr questionEmbedding \<Rightarrow>
               (let similarContent =
                      findSimilarContent e questionEmbedding (Some (documentName id'))
                in if similarContent \<noteq> [] then
                     (case map_err (chunk_line id' (Some record)) similarContent of
                        Inl err \<Rightarrow> Inl err
                      | Inr lines \<Rightarrow> Inr (Some (js_join ''\<newline>\<newline>'' lines)))
                   else branchC e getEmbedding q)))"

subsection \<open>The controller\<close>

text \<open>The guard \<open>(isComparative || names.length > 1) && names.length >= 2\<close>.\<close>

definition branchA_guard :: "bool \<Rightarrow> nat \<Rightarrow> bool" where
  "branchA_guard comparative n = ((comparative \<or> 1 < n) \<and> 2 \<le> n)"

text \<open>The body of \<open>findRelevantContext\<close> from the guard on. \<open>Inr None\<close> is \<open>null\<close>.\<close>

definition assemble ::
  "engine \<Rightarrow> (string \<Rightarrow> js_error + vec) \<Rightarrow> string \<Rightarrow> bool \<Rightarrow> (string \<times> person) list
     \<Rightarrow> js_error + string option" where
  "assemble e getEmbedding q comparative names =
     (if branchA_guard comparative (length names) then branchA e getEmbedding q names
      else branchB e getEmbedding q names)"

definition findRelevantContext ::
  "engine \<Rightarrow> (string \<Rightarrow> js_error + vec) \<Rightarrow> string \<Rightarrow> turn list \<Rightarrow> js_error + string option" where
  "findRelevantContext e getEmbedding question history =
     (let q = contextualQuery question history
      in assemble e getEmbedding q (isComparative q) (findAllNamesInQuestion e q))"

section \<open>The specification's notions\<close>

text \<open>The definitions of this section follow the words of the specification; the
  theorems below compare them with the functions of the engine.\<close>

definition is_zero_vec :: "vec \<Rightarrow> bool" where
  "is_zero_vec v = list_all (\<lambda>x. x = 0) v"

text \<open>The dot product of mathematics, over the common prefix of two vectors.\<close>

definition dot_real :: "vec \<Rightarrow> vec \<Rightarrow> real" where
  "dot_real a b = (\<Sum>(x, y)\<leftarrow>zip a b. x * y)"

text \<open>The last \<open>n\<close> turns of a history.\<close>

definition last_turns :: "nat \<Rightarrow> 'a list \<Rightarrow> 'a list" where
  "last_turns n h = rev (take n (rev h))"

text \<open>``Starts with \<open>w\<close>, case-insensitively.''\<close>

definition starts_with_ci :: "string \<Rightarrow> string \<Rightarrow> bool" where
  "starts_with_ci q w = (length w \<le> length q \<and> toLowerCase (take (length w) q) = toLowerCase w)"

text \<open>The decision to fold the history in: short, or a why/how question, or no
  question mark.\<close>

definition needs_history :: "string \<Rightarrow> bool" where
  "needs_history q =
     (length q < 60 \<or> starts_with_ci q ''why'' \<or> starts_with_ci q ''how'' \<or> CHR ''?'' \<notin> set q)"


text \<open>The page of a chunk, absent when the chunk has no metadata or no page.\<close>

definition page_of :: "item \<Rightarrow> nat option" where
  "page_of it = (case item_metadata it of None \<Rightarrow> None | Some m \<Rightarrow> page m)"

text \<open>Branch A, per matched document: whether its restricted ranking returned anything,
  and the context block built from it.\<close>

definition has_results :: "engine \<Rightarrow> vec \<Rightarrow> string \<times> person \<Rightarrow> bool" where
  "has_results e qe m = (findSimilarContent e qe (Some (documentName (fst m))) \<noteq> [])"

definition context_block :: "engine \<Rightarrow> vec \<Rightarrow> string \<times> person \<Rightarrow> doc_context" where
  "context_block e qe m =
     \<lparr>interviewId = fst m, interviewee = name (snd m), context_date = date (snd m),
      context_content =
        map (\<lambda>it. \<lparr>c_text = item_text it, c_page = page_of it, c_score = score it\<rparr>)
            (findSimilarContent e qe (Some (documentName (fst m))))\<rparr>"

text \<open>The fallback's groups: the source of a chunk, the sources in the order in which the
  ranking first meets them, the chunks of one source, and the source whose group has the most
  members, the first such in that order.\<close>

definition source_of :: "item \<Rightarrow> string" where
  "source_of it = (case item_metadata it of None \<Rightarrow> [] | Some m \<Rightarrow> source m)"

fun first_occ :: "'a list \<Rightarrow> 'a list" where
  "first_occ [] = []"
| "first_occ (x # xs) = x # filter (\<lambda>y. y \<noteq> x) (first_occ xs)"

definition group_of :: "string \<Rightarrow> item list \<Rightarrow> item list" where
  "group_of s ranked = filter (\<lambda>it. source_of it = s) ranked"

definition sources_in_order :: "item list \<Rightarrow> string list" where
  "sources_in_order ranked = first_occ (map source_of ranked)"

definition largest_group :: "item list \<Rightarrow> string option" where
  "largest_group ranked =
     find (\<lambda>s. \<forall>t \<in> set (sources_in_order ranked).
                 length (group_of t ranked) \<le> length (group_of s ranked))
          (sources_in_order ranked)"

text \<open>One chunk printed under the header of document \<open>i\<close> with record \<open>r\<close>.\<close>

definition cited_chunk :: "string \<Rightarrow> person \<Rightarrow> item \<Rightarrow> string" where
  "cited_chunk i r it =
     header i (name r) (date r) @ ''[Page '' @ show_page (page_of it) @ ''] ''
       @ show_text (item_text it)"

text \<open>The chunks stored under a key of \<open>groupedResults\<close> (empty for an absent key).\<close>

definition members :: "(string \<times> item list) list \<Rightarrow> string \<Rightarrow> item list" where
  "members g k = (case map_of g k of None \<Rightarrow> [] | Some xs \<Rightarrow> xs)"

section \<open>Sample data\<close>

definition jean :: person where
  "jean = \<lparr>name = ''Jean Carlomusto'', date = ''2002''\<rparr>"

definition vito :: person where
  "vito = \<lparr>name = ''Vito Russo'', date = ''1990''\<rparr>"

definition registry2 :: "(string \<times> person) list" where
  "registry2 = [(''1'', jean), (''2'', vito)]"

definition empty_corpus :: engine where
  "empty_corpus = \<lparr>embeddings = [], texts = [], chunkMetadata = [], metadata = registry2\<rparr>"

definition talk :: "turn list" where
  "talk = [\<lparr>role = ''user'', content = ''one''\<rparr>, \<lparr>role = ''assistant'', content = ''two''\<rparr>,
           \<lparr>role = ''user'', content = ''three''\<rparr>, \<lparr>role = ''assistant'', content = ''four''\<rparr>,
           \<lparr>role = ''user'', content = ''five''\<rparr>]"

definition long_question :: string where
  "long_question =
     ''What specific organization did Jean Carlomusto found in 1987 according to the interview?''"


definition maxine :: person where
  "maxine = \<lparr>name = ''Maxine Wolfe'', date = ''2004''\<rparr>"

definition registry3 :: "(string \<times> person) list" where
  "registry3 = [(''1'', jean), (''2'', vito), (''3'', maxine)]"

text \<open>Six chunks over three documents. Against the query \<open>[1, 0]\<close> the scores are
  0, 1, 1, 1, 0 and -1; the top five split 3/1/1 over the documents.\<close>

definition corpus6 :: engine where
  "corpus6 =
     \<lparr>embeddings = [[0, 1], [1, 0], [1, 0], [1, 0], [0, 1], [- 1, 0]],
      texts = [''a'', ''b'', ''c'', ''d'', ''e'', ''f''],
      chunkMetadata =
        [\<lparr>source = ''document2.pdf'', page = Some 4\<rparr>,
         \<lparr>source = ''document1.pdf'', page = Some 12\<rparr>,
         \<lparr>source = ''document3.pdf'', page = None\<rparr>,
         \<lparr>source = ''document1.pdf'', page = Some 7\<rparr>,
         \<lparr>source = ''document1.pdf'', page = None\<rparr>,
         \<lparr>source = ''document3.pdf'', page = Some 1\<rparr>],
      metadata = registry3\<rparr>"

text \<open>The ranking of \<open>corpus6\<close> against \<open>[1, 0]\<close>, and the chunk it leaves out.\<close>

definition ranked6 :: "item list" where
  "ranked6 =
     [\<lparr>score = Num 1, item_text = Some ''b'',
       item_metadata = Some \<lparr>source = ''document1.pdf'', page = Some 12\<rparr>\<rparr>,
      \<lparr>score = Num 1, item_text = Some ''c'',
       item_metadata = Some \<lparr>source = ''document3.pdf'', page = None\<rparr>\<rparr>,
      \<lparr>score = Num 1, item_text = Some ''d'',
       item_metadata = Some \<lparr>source = ''document1.pdf'', page = Some 7\<rparr>\<rparr>,
      \<lparr>score = Num 0, item_text = Some ''a'',
       item_metadata = Some \<lparr>source = ''document2.pdf'', page = Some 4\<rparr>\<rparr>,
      \<lparr>score = Num 0, item_text = Some ''e'',
       item_metadata = Some \<lparr>source = ''document1.pdf'', page = None\<rparr>\<rparr>]"

definition last6 :: item where
  "last6 = \<lparr>score = Num (- 1), item_text = Some ''f'',
       item_metadata = Some \<lparr>source = ''document3.pdf'', page = Some 1\<rparr>\<rparr>"


text \<open>A corpus with chunks for the first registry entry only, and its two scored chunks.\<close>

definition one_sided :: engine where
  "one_sided =
     \<lparr>embeddings = [[1, 0], [1, 0]], texts = [''a'', ''b''],
      chunkMetadata = [\<lparr>source = ''document1.pdf'', page = None\<rparr>,
                       \<lparr>source = ''document1.pdf'', page = None\<rparr>],
      metadata = registry2\<rparr>"

definition item_a :: item where
  "item_a = \<lparr>score = Num 1, item_text = Some ''a'',
             item_metadata = Some \<lparr>source = ''document1.pdf'', page = None\<rparr>\<rparr>"

definition item_b :: item where
  "item_b = \<lparr>score = Num 1, item_text = Some ''b'',
             item_metadata = Some \<lparr>source = ''document1.pdf'', page = None\<rparr>\<rparr>"

text \<open>An embedding provider that answers every text with \<open>[1, 0]\<close>, and two questions.\<close>

definition unit_embedding :: "string \<Rightarrow> js_error + vec" where
  "unit_embedding t = Inr [1, 0]"

definition both_names :: string where
  "both_names = ''Jean Carlomusto and Vito Russo?''"

definition plain_question :: string where
  "plain_question = ''What happened in 1987?''"

section \<open>Properties of cosine similarity\<close>

lemma foldl_squares: "foldl (\<lambda>sum a. sum + a * a) acc v = acc + (\<Sum>x\<leftarrow>v. x * x)"
  for acc :: real
  by (induction v arbitrary: acc) simp_all

lemma foldl_products:
  "foldl (\<lambda>sum (a, b). sum + a * b) acc ps = acc + (\<Sum>(x, y)\<leftarrow>ps. x * y)"
  for acc :: real
  by (induction ps arbitrary: acc) (simp_all add: case_prod_unfold)

lemma sum_squares_nonneg: "0 \<le> (\<Sum>x\<leftarrow>v. x * x)" for v :: "real list"
  by (induction v) simp_all

lemma sum_squares_zero_iff: "((\<Sum>x\<leftarrow>v. x * x) = 0) = is_zero_vec v" for v :: "real list"
proof (induction v)
  case Nil
  show ?case by (simp add: is_zero_vec_def)
next
  case (Cons x v)
  have "0 \<le> x * x" by simp
  with sum_squares_nonneg [of v] have "(x * x + (\<Sum>x\<leftarrow>v. x * x) = 0) = (x * x = 0 \<and> (\<Sum>x\<leftarrow>v. x * x) = 0)"
    by (simp add: add_nonneg_eq_0_iff)
  with Cons show ?case by (simp add: is_zero_vec_def)
qed

lemma norm_of_eq: "norm_of v = sqrt (\<Sum>x\<leftarrow>v. x * x)"
  by (simp add: norm_of_def foldl_squares)

lemma norm_of_zero_iff: "(norm_of v = 0) = is_zero_vec v"
  by (simp add: norm_of_eq sum_squares_zero_iff)

lemma dotProduct_eq: "length a \<le> length b \<Longrightarrow> dotProduct a b = Num (dot_real a b)"
  by (simp add: dotProduct_def foldl_products dot_real_def)






lemma cosine_nonzero:
  "length a \<le> length b \<Longrightarrow> \<not> is_zero_vec a \<Longrightarrow> \<not> is_zero_vec b \<Longrightarrow>
     cosineSimilarity a b = Num (dot_real a b / (norm_of a * norm_of b))"
  by (simp add: cosineSimilarity_def dotProduct_eq norm_of_zero_iff)





section \<open>Properties of the controller's guard\<close>

text \<open>
  Claim C9. The guard of Branch A, \<open>(isComparative || names.length > 1) && names.length >= 2\<close>,
  is equivalent to \<open>names.length >= 2\<close>: the comparative flag has no effect on the branch
  taken, nor on the result.
\<close>

theorem guard_ignores_flag:
  "branchA_guard comparative n = (2 \<le> n)
   \<and> assemble e getEmbedding q comparative names = assemble e getEmbedding q comparative' names"
  by (auto simp: branchA_guard_def assemble_def)

theorem guard_ignores_flag_witness:
  "branchA_guard True 1 = (2 \<le> (1 :: nat))
   \<and> assemble empty_corpus (\<lambda>t. Inr [1, 0]) ''why?'' True registry2
       = assemble empty_corpus (\<lambda>t. Inr [1, 0]) ''why?'' False registry2"
  using guard_ignores_flag [of True 1 empty_corpus "\<lambda>t. Inr [1, 0]" "''why?''" registry2 False]
  by simp

section \<open>Properties of strings\<close>

lemma slice_last_eq: "slice_last n xs = last_turns n xs"
  by (simp add: slice_last_def last_turns_def rev_take)

lemma startsWith_Nil [simp]: "startsWith s [] = True" 
  by (simp add: startsWith_def)

lemma startsWith_iff: "startsWith s p = (\<exists>vs. s = p @ vs)"
  unfolding startsWith_def
  by (metis append_eq_conv_conj append_take_drop_id)

lemma js_includes_iff: "js_includes s sub = (\<exists>us vs. s = us @ sub @ vs)"
proof (induction s)
  case Nil
  show ?case by auto
next
  case (Cons c cs)
  show ?case
  proof
    assume "js_includes (c # cs) sub"
    then consider "startsWith (c # cs) sub" | "js_includes cs sub" by auto
    then show "\<exists>us vs. c # cs = us @ sub @ vs"
    proof cases
      case 1
      then obtain vs where "c # cs = sub @ vs" by (auto simp: startsWith_iff)
      then have "c # cs = [] @ sub @ vs" by simp
      then show ?thesis by blast
    next
      case 2
      with Cons obtain us vs where "cs = us @ sub @ vs" by auto
      then have "c # cs = (c # us) @ sub @ vs" by simp
      then show ?thesis by blast
    qed
  next
    assume "\<exists>us vs. c # cs = us @ sub @ vs"
    then obtain us vs where e: "c # cs = us @ sub @ vs" by auto
    show "js_includes (c # cs) sub"
    proof (cases us)
      case Nil
      with e have "startsWith (c # cs) sub" by (auto simp: startsWith_iff)
      then show ?thesis by simp
    next
      case (Cons u us')
      with e have "cs = us' @ sub @ vs" by simp
      with Cons.IH have "js_includes cs sub" by blast
      then show ?thesis by simp
    qed
  qed
qed

lemma includes_char: "js_includes s [c] = (c \<in> set s)"
  by (induction s) (auto simp: startsWith_def)

lemma startsWith_lower:
  "toLowerCase w = w \<Longrightarrow> startsWith (toLowerCase q) w = starts_with_ci q w"
  unfolding startsWith_def starts_with_ci_def toLowerCase_def 
  by (metis length_map length_take min.absorb2 min_def take_map nat_le_linear take_all)

lemma lower_char_idem: "lower_char (lower_char c) = lower_char c"
  by (simp add: lower_char_def)

lemma toLowerCase_idem: "toLowerCase (toLowerCase s) = toLowerCase s"
  by (simp add: toLowerCase_def lower_char_idem)

section \<open>Query reformulation\<close>

text \<open>
  Claim C4. The history is folded in exactly when the question has fewer than 60 characters,
  or starts with ``why'' or ``how'' case-insensitively, or contains no question mark. The
  query is then the contents of the last 4 turns joined by spaces, a space, and the
  question; otherwise it is the question unchanged.
\<close>

theorem reformulation_rule:
  "contextualQuery question history =
     (if needs_history question
      then js_join '' '' (map content (last_turns 4 history)) @ '' '' @ question
      else question)"
proof -
  have w: "toLowerCase ''why'' = ''why''" and h: "toLowerCase ''how'' = ''how''"
    by (simp_all add: toLowerCase_def lower_char_def)
  show ?thesis
    by (simp add: contextualQuery_def needs_history_def slice_last_eq includes_char
        startsWith_lower [OF w] startsWith_lower [OF h])
qed

theorem reformulation_rule_witness:
  "needs_history ''why?'' \<and> contextualQuery ''why?'' talk = ''two three four five why?''
   \<and> \<not> needs_history long_question \<and> contextualQuery long_question talk = long_question"
proof -
  have a: "needs_history ''why?''" by code_simp
  have b: "\<not> needs_history long_question" by code_simp
  have c: "js_join '' '' (map content (last_turns 4 talk)) @ '' '' @ ''why?'' = ''two three four five why?''"
    by code_simp
  from a b c reformulation_rule [of "''why?''" talk] reformulation_rule [of long_question talk]
  show ?thesis by simp
qed

section \<open>Entity resolution\<close>









section \<open>Loading\<close>



text \<open>When the table cannot be read after the artifact was parsed, the error is raised with
  the three arrays already stored in the engine.\<close>

lemma initialize_table_failure:
  "initialize e (Some data) None =
     (Some TableError,
      e\<lparr>embeddings := art_embeddings data, texts := art_texts data,
        chunkMetadata := art_metadata data\<rparr>)"
  by (simp add: initialize_def)


section \<open>Ranking\<close>

lemma set_insert_sorted: "set (insert_sorted after x ys) = insert x (set ys)"
  by (induction ys) auto

lemma set_js_sort: "set (js_sort after xs) = set xs"
  by (induction xs) (simp_all add: js_sort_def set_insert_sorted)








lemma candidates_subset: "set (candidates e q src) \<subseteq> set (similarities e q)"
  by (auto simp: candidates_def split: option.splits)


lemma findSimilarContent_subset: "set (findSimilarContent e q src) \<subseteq> set (candidates e q src)"
  unfolding findSimilarContent_def using set_take_subset set_js_sort by fastforce

lemma similarities_scores:
  assumes "it \<in> set (similarities e q)"
  shows "\<exists>emb \<in> set (embeddings e). score it = cosineSimilarity q emb"
proof -
  from assms obtain p where p: "p \<in> set (enumerate 0 (embeddings e))"
    and it: "score it = cosineSimilarity q (snd p)"
    by (auto simp: similarities_def)
  from p have "fst p < length (embeddings e)" and "embeddings e ! fst p = snd p"
    by (simp_all add: in_set_enumerate_eq)
  then have "snd p \<in> set (embeddings e)" using nth_mem by metis
  with it show ?thesis by blast
qed

text \<open>Every score is a number when neither the query nor an embedding is a zero vector and
  no embedding is shorter than the query.\<close>

lemma scores_numeric:
  assumes "\<not> is_zero_vec q"
    and "\<forall>emb \<in> set (embeddings e). \<not> is_zero_vec emb \<and> length q \<le> length emb"
  shows "\<forall>it \<in> set (candidates e q src). is_num (score it)"
proof
  fix it assume "it \<in> set (candidates e q src)"
  with candidates_subset have "it \<in> set (similarities e q)" by blast
  then obtain emb where "emb \<in> set (embeddings e)" and s: "score it = cosineSimilarity q emb"
    using similarities_scores by blast
  with assms have "cosineSimilarity q emb = Num (dot_real q emb / (norm_of q * norm_of emb))"
    by (simp add: cosine_nonzero)
  with s show "is_num (score it)" by simp
qed


lemma cos_10_10: "cosineSimilarity [1, 0] [1, 0] = Num 1"
  by (simp add: cosineSimilarity_def dotProduct_def norm_of_def)

lemma cos_10_01: "cosineSimilarity [1, 0] [0, 1] = Num 0"
  by (simp add: cosineSimilarity_def dotProduct_def norm_of_def)

lemma cos_10_m10: "cosineSimilarity [1, 0] [- 1, 0] = Num (- 1)"
  by (simp add: cosineSimilarity_def dotProduct_def norm_of_def)


lemma similarities6:
  "similarities corpus6 [1, 0] =
     [ranked6 ! 3, ranked6 ! 0, ranked6 ! 1, ranked6 ! 2, ranked6 ! 4, last6]"
  by (simp add: similarities_def corpus6_def ranked6_def last6_def nth_opt_def
      cos_10_10 cos_10_01 cos_10_m10)

lemma find6: "findSimilarContent corpus6 [1, 0] None = ranked6"
  by (simp add: findSimilarContent_def candidates_def similarities6 js_sort_def score_after_def
      ranked6_def last6_def)





section \<open>Branch A\<close>

lemma map_err_total: "\<forall>x \<in> set xs. f x = Inr (g x) \<Longrightarrow> map_err f xs = Inr (map g xs)"
  by (induction xs) simp_all

lemma documentName_nonempty: "documentName i \<noteq> []"
  by (simp add: documentName_def)

lemma restricted_has_metadata:
  assumes "it \<in> set (findSimilarContent e q (Some (documentName i)))"
  shows "\<exists>m. item_metadata it = Some m \<and> source m = documentName i"
proof -
  from assms findSimilarContent_subset have "it \<in> set (candidates e q (Some (documentName i)))"
    by blast
  then have "from_source (documentName i) it"
    by (simp add: candidates_def documentName_nonempty)
  then show ?thesis by (auto simp: from_source_def split: option.splits)
qed

lemma content_of_restricted:
  "map_err content_of (findSimilarContent e q (Some (documentName i)))
     = Inr (map (\<lambda>it. \<lparr>c_text = item_text it, c_page = page_of it, c_score = score it\<rparr>)
                (findSimilarContent e q (Some (documentName i))))"
proof (rule map_err_total, rule ballI)
  fix it assume "it \<in> set (findSimilarContent e q (Some (documentName i)))"
  then obtain m where "item_metadata it = Some m" using restricted_has_metadata by blast
  then show "content_of it = Inr \<lparr>c_text = item_text it, c_page = page_of it, c_score = score it\<rparr>"
    by (simp add: content_of_def page_of_def)
qed

lemma collect_contexts_blocks:
  "getEmbedding q = Inr qe \<Longrightarrow>
     collect_contexts e getEmbedding q names
       = Inr (map (context_block e qe) (filter (has_results e qe) names))"
proof (induction names)
  case Nil
  show ?case by simp
next
  case (Cons m names)
  obtain i r where m: "m = (i, r)" by (cases m)
  from Cons show ?case
    by (simp add: m content_of_restricted has_results_def context_block_def Let_def)
qed

text \<open>
  Claim C1, as the code has it. With two or more matched names the function returns from
  Branch A and never falls through: when at least one matched document yields results, the
  result is the context blocks of exactly the matched documents that yield results, in match
  order, joined by the separator, also when there is a single block.
\<close>

theorem branchA_no_fall_through:
  assumes "2 \<le> length (findAllNamesInQuestion e (contextualQuery question history))"
    and "getEmbedding (contextualQuery question history) = Inr qe"
    and "\<exists>m \<in> set (findAllNamesInQuestion e (contextualQuery question history)). has_results e qe m"
  shows "findRelevantContext e getEmbedding question history
           = Inr (Some (render_contexts
                (map (context_block e qe)
                   (filter (has_results e qe)
                      (findAllNamesInQuestion e (contextualQuery question history))))))"
  using assms(1,2)
  by (simp add: findRelevantContext_def assemble_def branchA_guard_def branchA_def
      collect_contexts_blocks Let_def)

lemma cq_both: "contextualQuery both_names [] = '' Jean Carlomusto and Vito Russo?''"
  by code_simp

lemma names_both_empty:
  "findAllNamesInQuestion empty_corpus '' Jean Carlomusto and Vito Russo?'' = registry2"
  by code_simp

lemma names_both_one_sided:
  "findAllNamesInQuestion one_sided '' Jean Carlomusto and Vito Russo?'' = registry2"
  by code_simp

lemma find_empty: "findSimilarContent empty_corpus q src = []"
  by (simp add: findSimilarContent_def candidates_def similarities_def empty_corpus_def js_sort_def
      split: option.splits)

lemma similarities_one_sided: "similarities one_sided [1, 0] = [item_a, item_b]"
  by (simp add: similarities_def one_sided_def nth_opt_def cos_10_10 item_a_def item_b_def)

lemma find_one_sided_1:
  "findSimilarContent one_sided [1, 0] (Some (documentName ''1'')) = [item_a, item_b]"
  by (simp add: findSimilarContent_def candidates_def similarities_one_sided js_sort_def
      score_after_def from_source_def documentName_def item_a_def item_b_def)

lemma find_one_sided_2:
  "findSimilarContent one_sided [1, 0] (Some (documentName ''2'')) = []"
  by (simp add: findSimilarContent_def candidates_def similarities_one_sided js_sort_def
      score_after_def from_source_def documentName_def item_a_def item_b_def)

theorem branchA_no_fall_through_witness:
  "2 \<le> length (findAllNamesInQuestion one_sided (contextualQuery both_names []))
   \<and> unit_embedding (contextualQuery both_names []) = Inr [1, 0]
   \<and> (\<exists>m \<in> set (findAllNamesInQuestion one_sided (contextualQuery both_names [])).
         has_results one_sided [1, 0] m)
   \<and> findRelevantContext one_sided unit_embedding both_names []
       = Inr (Some (render_contexts [context_block one_sided [1, 0] (''1'', jean)]))"
proof -
  have a: "2 \<le> length (findAllNamesInQuestion one_sided (contextualQuery both_names []))"
    by (simp add: cq_both names_both_one_sided registry2_def)
  have b: "unit_embedding (contextualQuery both_names []) = Inr [1, 0]"
    by (simp add: unit_embedding_def)
  have f: "filter (has_results one_sided [1, 0])
             (findAllNamesInQuestion one_sided (contextualQuery both_names [])) = [(''1'', jean)]"
    by (simp add: cq_both names_both_one_sided registry2_def has_results_def
        find_one_sided_1 find_one_sided_2)
  have c: "\<exists>m \<in> set (findAllNamesInQuestion one_sided (contextualQuery both_names [])).
         has_results one_sided [1, 0] m"
    by (simp add: cq_both names_both_one_sided registry2_def has_results_def find_one_sided_1)
  from branchA_no_fall_through [of one_sided both_names "[]" unit_embedding "[1, 0]", OF a b c] a b c f
  show ?thesis by simp
qed

lemma branchA_one_sided:
  "findRelevantContext one_sided unit_embedding both_names []
     = Inr (Some ''Interview 1 with Jean Carlomusto (2002):\<newline>[Page undefined] a\<newline>\<newline>[Page undefined] b'')"
  by (simp add: findRelevantContext_def cq_both names_both_one_sided assemble_def branchA_guard_def
      branchA_def registry2_def unit_embedding_def find_one_sided_1 find_one_sided_2
      render_contexts_def render_context_def render_entry_def header_def content_of_def
      item_a_def item_b_def jean_def vito_def show_page_def show_text_def)

lemma branchB_one_sided:
  "branchB one_sided unit_embedding '' Jean Carlomusto and Vito Russo?'' registry2
     = Inr (Some ''Interview 1 with Jean Carlomusto (2002):\<newline>[Page undefined] a\<newline>\<newline>Interview 1 with Jean Carlomusto (2002):\<newline>[Page undefined] b'')"
  by (simp add: branchB_def registry2_def unit_embedding_def find_one_sided_1 
      chunk_line_def header_def 
      item_a_def item_b_def jean_def show_page_def show_text_def)

text \<open>
  Against claim C1 as stated: two names match, one document yields results, and the result
  is the Branch A rendering of that single block, not what Branches B and C return.
\<close>

theorem branchA_single_block_counterexample:
  "length (findAllNamesInQuestion one_sided (contextualQuery both_names [])) = 2
   \<and> length (filter (has_results one_sided [1, 0])
                (findAllNamesInQuestion one_sided (contextualQuery both_names []))) = 1
   \<and> findRelevantContext one_sided unit_embedding both_names []
       = Inr (Some (render_contexts [context_block one_sided [1, 0] (''1'', jean)]))
   \<and> findRelevantContext one_sided unit_embedding both_names []
       \<noteq> branchB one_sided unit_embedding (contextualQuery both_names [])
            (findAllNamesInQuestion one_sided (contextualQuery both_names []))"
  by (simp add: cq_both names_both_one_sided branchA_one_sided branchB_one_sided)
    (simp add: registry2_def has_results_def find_one_sided_1 find_one_sided_2 
      render_contexts_def render_context_def render_entry_def header_def context_block_def
      item_a_def item_b_def jean_def vito_def show_page_def show_text_def page_of_def)

text \<open>
  Claim C2 at the failing input: two names match and no document yields results; Branch A
  returns the join of no blocks, the empty string, where the claim has the marker \<open>null\<close>.
\<close>

theorem empty_context_returned:
  "findRelevantContext empty_corpus unit_embedding both_names [] = Inr (Some [])"
  by (simp add: findRelevantContext_def cq_both names_both_empty assemble_def branchA_guard_def
      branchA_def registry2_def unit_embedding_def find_empty render_contexts_def)

section \<open>The fallback branch\<close>

lemma set_first_occ: "set (first_occ xs) = set xs"
  by (induction xs) auto

lemma distinct_first_occ: "distinct (first_occ xs)"
  by (induction xs) (simp_all add: set_first_occ)

lemma add_to_group_old_key: "s \<in> set (map fst g) \<Longrightarrow> map fst (add_to_group s it g) = map fst g"
proof (induction g)
  case Nil
  then show ?case by simp
next
  case (Cons kv g)
  obtain k v where kv: "kv = (k, v)" by (cases kv)
  show ?case
  proof (cases "k = s")
    case True
    then show ?thesis by (simp add: kv)
  next
    case False
    with Cons.prems have "s \<in> set (map fst g)" by (simp add: kv)
    with Cons.IH False show ?thesis by (simp add: kv)
  qed
qed

lemma add_to_group_new_key:
  "s \<notin> set (map fst g) \<Longrightarrow> map fst (add_to_group s it g) = map fst g @ [s]"
  by (induction g) auto

lemma add_to_group_keys:
  "map fst (add_to_group s it g) = (if s \<in> set (map fst g) then map fst g else map fst g @ [s])"
  using add_to_group_old_key add_to_group_new_key by metis

lemma add_to_group_map_of:
  "map_of (add_to_group s it g) k = (if k = s then Some (members g s @ [it]) else map_of g k)"
  by (induction g) (auto simp: members_def)

lemma members_add_to_group:
  "members (add_to_group s it g) k = (if k = s then members g s @ [it] else members g k)"
  by (simp add: members_def add_to_group_map_of)

lemma group_step_Inr:
  assumes "group_step g it = Inr g'"
  shows "item_metadata it \<noteq> None \<and> g' = add_to_group (source_of it) it g"
  using assms by (auto simp: group_step_def source_of_def split: option.splits if_splits)

lemma group_items_invariant:
  "group_items g xs = Inr g' \<Longrightarrow>
     (\<forall>it \<in> set xs. item_metadata it \<noteq> None)
     \<and> map fst g' = map fst g @ filter (\<lambda>k. k \<notin> set (map fst g)) (first_occ (map source_of xs))
     \<and> (\<forall>k. members g' k = members g k @ filter (\<lambda>it. source_of it = k) xs)"
proof (induction xs arbitrary: g)
  case Nil
  then show ?case by simp
next
  case (Cons it xs)
  from Cons.prems obtain g1 where s: "group_step g it = Inr g1" and r: "group_items g1 xs = Inr g'"
    by (auto split: sum.splits)
  from group_step_Inr [OF s] have m: "item_metadata it \<noteq> None"
    and g1: "g1 = add_to_group (source_of it) it g" by simp_all
  note IH = Cons.IH [OF r]
  let ?s = "source_of it"
  have keys: "map fst g' = map fst g @ filter (\<lambda>k. k \<notin> set (map fst g)) (first_occ (map source_of (it # xs)))"
  proof (cases "?s \<in> set (map fst g)")
    case True
    then have "map fst g1 = map fst g" by (simp add: g1 add_to_group_keys)
    moreover from True have "\<And>k. (k \<noteq> ?s \<and> k \<notin> set (map fst g)) = (k \<notin> set (map fst g))" by auto
    ultimately show ?thesis using IH True by simp
  next
    case False
    then have "map fst g1 = map fst g @ [?s]" by (simp add: g1 add_to_group_keys)
    moreover have "\<And>k. (k \<noteq> ?s \<and> k \<notin> set (map fst g)) = (k \<notin> set (map fst g) \<and> k \<noteq> ?s)" by auto
    ultimately show ?thesis using IH False by simp
  qed
  have mem: "\<forall>k. members g' k = members g k @ filter (\<lambda>it. source_of it = k) (it # xs)"
    using IH by (simp add: g1 members_add_to_group)
  from m IH keys mem show ?case by simp
qed

lemma group_items_groups:
  assumes "group_items [] xs = Inr g"
  shows "map fst g = sources_in_order xs"
    and "\<forall>it \<in> set xs. item_metadata it \<noteq> None"
    and "\<forall>kv \<in> set g. snd kv = group_of (fst kv) xs"
proof -
  note inv = group_items_invariant [OF assms]
  from inv show k: "map fst g = sources_in_order xs" by (simp add: sources_in_order_def)
  from inv show "\<forall>it \<in> set xs. item_metadata it \<noteq> None" by simp
  from k have d: "distinct (map fst g)" by (simp add: sources_in_order_def distinct_first_occ)
  show "\<forall>kv \<in> set g. snd kv = group_of (fst kv) xs"
  proof
    fix kv assume "kv \<in> set g"
    then have "(fst kv, snd kv) \<in> set g" by simp
    with d have "map_of g (fst kv) = Some (snd kv)" by (simp only: map_of_is_SomeI)
    then have "members g (fst kv) = snd kv" by (simp add: members_def)
    with inv show "snd kv = group_of (fst kv) xs" by (simp add: group_of_def members_def)
  qed
qed

lemma find_first:
  "\<forall>u \<in> set us. \<not> P u \<Longrightarrow> P b \<Longrightarrow> find P (us @ b # vs) = Some b"
  by (induction us) simp_all

lemma find_append_split:
  "find P (xs @ ys) = (case find P xs of None \<Rightarrow> find P ys | Some x \<Rightarrow> Some x)"
  by (induction xs) simp_all

lemma find_filter_same:
  "\<forall>x \<in> set xs. P x \<longrightarrow> Q x \<Longrightarrow> find P (filter Q xs) = find P xs"
  by (induction xs) auto

lemma find_map_key:
  "find (\<lambda>x. P (f x)) xs = Some b \<Longrightarrow> find P (map f xs) = Some (f b)"
  by (induction xs) (auto split: if_splits)

lemma find_in_set: "find P xs = Some x \<Longrightarrow> x \<in> set xs \<and> P x"
  by (induction xs) (auto split: if_splits)

lemma js_sort_head_split:
  "js_sort size_after xs = best # others \<Longrightarrow>
     \<exists>us vs. xs = us @ best # vs
       \<and> (\<forall>u \<in> set us. length (snd u) < length (snd best))
       \<and> (\<forall>v \<in> set vs. length (snd v) \<le> length (snd best))"
proof (induction xs arbitrary: best others)
  case Nil
  then show ?case by (simp add: js_sort_def)
next
  case (Cons x xs)
  have step: "js_sort size_after (x # xs) = insert_sorted size_after x (js_sort size_after xs)"
    by (simp add: js_sort_def)
  show ?case
  proof (cases "js_sort size_after xs")
    case Nil
    with set_js_sort [of size_after xs] have "xs = []" by simp
    with Cons.prems have "best = x" by (simp add: js_sort_def)
    with \<open>xs = []\<close> have "x # xs = [] @ best # []
        \<and> (\<forall>u \<in> set []. length (snd u) < length (snd best))
        \<and> (\<forall>v \<in> set []. length (snd v) \<le> length (snd best))" by simp
    then show ?thesis by blast
  next
    case (Cons h t)
    from Cons.IH [OF Cons] obtain us vs where d: "xs = us @ h # vs"
      and lt: "\<forall>u \<in> set us. length (snd u) < length (snd h)"
      and le: "\<forall>v \<in> set vs. length (snd v) \<le> length (snd h)" by blast
    show ?thesis
    proof (cases "size_after x h")
      case True
      with Cons step Cons.prems have "best = h" by simp
      moreover from True have "length (snd x) < length (snd h)" by (simp add: size_after_def)
      ultimately have "x # xs = (x # us) @ best # vs
          \<and> (\<forall>u \<in> set (x # us). length (snd u) < length (snd best))
          \<and> (\<forall>v \<in> set vs. length (snd v) \<le> length (snd best))"
        using d lt le by simp
      then show ?thesis by blast
    next
      case False
      with Cons step Cons.prems have b: "best = x" by simp
      from False have "length (snd h) \<le> length (snd x)" by (simp add: size_after_def)
      with d lt le have "\<forall>v \<in> set xs. length (snd v) \<le> length (snd x)" by fastforce
      with b have "x # xs = [] @ best # xs
          \<and> (\<forall>u \<in> set []. length (snd u) < length (snd best))
          \<and> (\<forall>v \<in> set xs. length (snd v) \<le> length (snd best))" by simp
      then show ?thesis by blast
    qed
  qed
qed

lemma js_sort_head_find:
  assumes "js_sort size_after xs = best # others"
  shows "find (\<lambda>x. \<forall>y \<in> set xs. length (snd y) \<le> length (snd x)) xs = Some best"
proof -
  from js_sort_head_split [OF assms] obtain us vs where d: "xs = us @ best # vs"
    and lt: "\<forall>u \<in> set us. length (snd u) < length (snd best)"
    and le: "\<forall>v \<in> set vs. length (snd v) \<le> length (snd best)" by blast
  let ?P = "\<lambda>x. \<forall>y \<in> set xs. length (snd y) \<le> length (snd x)"
  have pb: "?P best" using d lt le by fastforce
  have "\<forall>u \<in> set us. \<not> ?P u"
  proof
    fix u assume "u \<in> set us"
    with lt have "length (snd u) < length (snd best)" by simp
    moreover have "best \<in> set xs" by (simp add: d)
    ultimately show "\<not> ?P u" by (meson not_less)
  qed
  then have "find ?P (us @ best # vs) = Some best" using pb by (rule find_first)
  then show ?thesis by (simp only: d [symmetric])
qed

lemma set_object_entries: "set (object_entries g) = set g"
  by (auto simp: object_entries_def)

lemma object_entries_find:
  assumes f: "find P (object_entries g) = Some best" and n: "\<not> is_array_index (fst best)"
  shows "find P g = Some best"
proof -
  let ?I = "sort_key (\<lambda>kv. index_value (fst kv)) (filter (\<lambda>kv. is_array_index (fst kv)) g)"
  let ?N = "filter (\<lambda>kv. \<not> is_array_index (fst kv)) g"
  have e: "object_entries g = ?I @ ?N" by (simp add: object_entries_def)
  have none: "find P ?I = None"
  proof (cases "find P ?I")
    case None
    then show ?thesis .
  next
    case (Some x)
    with f e have "x = best" by (simp add: find_append_split)
    moreover from Some have "x \<in> set ?I" using find_in_set by fast
    ultimately show ?thesis using n by simp
  qed
  with f e have fn: "find P ?N = Some best" by (simp add: find_append_split)
  from none have "\<forall>x \<in> set ?I. \<not> P x" by (simp add: find_None_iff)
  then have "\<forall>x \<in> set g. P x \<longrightarrow> \<not> is_array_index (fst x)" by auto
  then have "find P ?N = find P g" by (rule find_filter_same)
  with fn show ?thesis by simp
qed

lemma match_here_d: "match_here s = Some d \<Longrightarrow> CHR ''d'' \<in> set s"
  by (cases s) (auto simp: match_here_def startsWith_def split: if_splits)

lemma match_document_d: "match_document s = Some d \<Longrightarrow> CHR ''d'' \<in> set s"
proof (induction s)
  case Nil
  then show ?case by simp
next
  case (Cons c cs)
  show ?case
  proof (cases "match_here (c # cs)")
    case None
    with Cons show ?thesis by simp
  next
    case (Some x)
    then show ?thesis by (rule match_here_d)
  qed
qed

lemma match_document_not_index: "match_document s = Some d \<Longrightarrow> \<not> is_array_index s"
proof
  assume "match_document s = Some d" and "is_array_index s"
  then have "CHR ''d'' \<in> set s" and "list_all is_digit s"
    by (simp_all add: match_document_d is_array_index_def)
  then have "is_digit CHR ''d''" by (simp add: list_all_iff)
  then show False by (simp add: is_digit_def)
qed

lemma chunk_line_cited:
  "item_metadata it \<noteq> None \<Longrightarrow> chunk_line i (Some r) it = Inr (cited_chunk i r it)"
  by (auto simp: chunk_line_def cited_chunk_def page_of_def split: option.splits)

lemma map_err_chunk_lines:
  assumes "map_err (chunk_line i found) xs = Inr lines" and "xs \<noteq> []"
    and "\<forall>it \<in> set xs. item_metadata it \<noteq> None"
  shows "\<exists>r. found = Some r \<and> lines = map (cited_chunk i r) xs"
proof (cases found)
  case None
  with assms(1,2) show ?thesis by (cases xs) (simp_all add: chunk_line_def)
next
  case (Some r)
  from assms(3) have "map_err (chunk_line i (Some r)) xs = Inr (map (cited_chunk i r) xs)"
    by (intro map_err_total) (simp add: chunk_line_cited)
  with assms(1) Some show ?thesis by simp
qed

lemma branchC_result:
  assumes emb: "getEmbedding q = Inr qe"
    and res: "branchC e getEmbedding q = Inr (Some ctx)"
  shows "\<exists>s i r. largest_group (findSimilarContent e qe None) = Some s
           \<and> match_document s = Some i
           \<and> map_of (metadata e) i = Some r
           \<and> ctx = js_join ''\<newline>\<newline>''
                     (map (cited_chunk i r) (group_of s (findSimilarContent e qe None)))"
proof -
  let ?ranked = "findSimilarContent e qe None"
  from emb res obtain g best others i lines where
    g: "group_items [] ?ranked = Inr g" and ne: "g \<noteq> []"
    and srt: "js_sort size_after (object_entries g) = best # others"
    and mt: "match_document (fst best) = Some i"
    and ln: "map_err (chunk_line i (map_of (metadata e) i)) (snd best) = Inr lines"
    and ctx: "ctx = js_join ''\<newline>\<newline>'' lines"
    by (auto simp: branchC_def split: sum.splits list.splits option.splits if_splits)
  note grp = group_items_groups [OF g]
  let ?P = "\<lambda>x. \<forall>y \<in> set g. length (snd y) \<le> length (snd x)"
  from js_sort_head_find [OF srt]
  have "find ?P (object_entries g) = Some best" by (simp add: set_object_entries)
  then have fg: "find ?P g = Some best"
    using match_document_not_index [OF mt] by (rule object_entries_find)
  then have bg: "best \<in> set g" using find_in_set by fast
  let ?Q = "\<lambda>s. \<forall>t \<in> set (sources_in_order ?ranked).
               length (group_of t ?ranked) \<le> length (group_of s ?ranked)"
  have "find (\<lambda>x. ?Q (fst x)) g = find ?P g"
  proof (rule find_cong [OF refl])
    fix x assume x: "x \<in> set g"
    have "?Q (fst x) = (\<forall>y \<in> set g. length (group_of (fst y) ?ranked) \<le> length (group_of (fst x) ?ranked))"
      by (simp add: grp(1) [symmetric])
    also have "\<dots> = ?P x" using grp(3) x by simp
    finally show "?Q (fst x) = ?P x" .
  qed
  with fg have "find (\<lambda>x. ?Q (fst x)) g = Some best" by simp
  then have "find ?Q (map fst g) = Some (fst best)" by (rule find_map_key)
  then have lg: "largest_group ?ranked = Some (fst best)"
    by (simp add: largest_group_def grp(1))
  from grp(3) bg have sb: "snd best = group_of (fst best) ?ranked" by simp
  have "fst best \<in> set (map source_of ?ranked)"
    using bg grp(1) by (metis image_eqI list.set_map set_first_occ sources_in_order_def)
  then have nonempty: "group_of (fst best) ?ranked \<noteq> []"
    by (auto simp: group_of_def filter_empty_conv)
  have meta: "\<forall>it \<in> set (group_of (fst best) ?ranked). item_metadata it \<noteq> None"
    using grp(2) by (simp add: group_of_def)
  from map_err_chunk_lines [OF ln [unfolded sb] nonempty meta]
  obtain r where "map_of (metadata e) i = Some r"
    and "lines = map (cited_chunk i r) (group_of (fst best) ?ranked)" by blast
  with lg mt ctx show ?thesis by blast
qed

lemma fallback_reached:
  assumes "findAllNamesInQuestion e (contextualQuery question history) = []
           \<or> (\<exists>m. findAllNamesInQuestion e (contextualQuery question history) = [m]
                  \<and> \<not> has_results e qe m)"
    and "getEmbedding (contextualQuery question history) = Inr qe"
  shows "findRelevantContext e getEmbedding question history
           = branchC e getEmbedding (contextualQuery question history)"
  using assms
  by (auto simp: findRelevantContext_def assemble_def branchA_guard_def branchB_def
      has_results_def Let_def)

text \<open>
  Claim C7. When no entity match is usable (no name matches, or the single match has no
  chunks) and the function returns a context, the ranked chunks are grouped by source, the
  group with the most members is taken, the first such in ranked order, and the context is
  that group's chunks and no others, each under the header of the document the source names.
\<close>

theorem fallback_largest_group:
  assumes "findAllNamesInQuestion e (contextualQuery question history) = []
           \<or> (\<exists>m. findAllNamesInQuestion e (contextualQuery question history) = [m]
                  \<and> \<not> has_results e qe m)"
    and "getEmbedding (contextualQuery question history) = Inr qe"
    and "findRelevantContext e getEmbedding question history = Inr (Some ctx)"
  shows "\<exists>s i r. largest_group (findSimilarContent e qe None) = Some s
           \<and> match_document s = Some i
           \<and> map_of (metadata e) i = Some r
           \<and> ctx = js_join ''\<newline>\<newline>''
                     (map (cited_chunk i r) (group_of s (findSimilarContent e qe None)))"
proof -
  from assms have "branchC e getEmbedding (contextualQuery question history) = Inr (Some ctx)"
    by (simp add: fallback_reached)
  with assms(2) show ?thesis by (rule branchC_result)
qed

lemma cq_plain: "contextualQuery plain_question [] = '' What happened in 1987?''"
  by code_simp

lemma names_plain: "findAllNamesInQuestion corpus6 '' What happened in 1987?'' = []"
  by code_simp

lemma match_doc1: "match_document ''document1.pdf'' = Some ''1''"
  by code_simp

lemma not_index_docs:
  "\<not> is_array_index ''document1.pdf''" "\<not> is_array_index ''document2.pdf''"
  "\<not> is_array_index ''document3.pdf''"
  by (simp_all add: is_array_index_def is_digit_def)

lemma not_proto_docs:
  "''document1.pdf'' \<notin> set proto_keys" "''document2.pdf'' \<notin> set proto_keys"
  "''document3.pdf'' \<notin> set proto_keys"
  by (simp_all add: proto_keys_def)

lemma groups6:
  "group_items [] ranked6 =
     Inr [(''document1.pdf'', [ranked6 ! 0, ranked6 ! 2, ranked6 ! 4]),
          (''document3.pdf'', [ranked6 ! 1]),
          (''document2.pdf'', [ranked6 ! 3])]"
  by (simp add: ranked6_def group_step_def not_proto_docs)

lemma show_pages: "show_nat 12 = ''12''" "show_nat 7 = ''7''"
  by code_simp+

lemma branchC6:
  "branchC corpus6 unit_embedding '' What happened in 1987?'' =
     Inr (Some ''Interview 1 with Jean Carlomusto (2002):\<newline>[Page 12] b\<newline>\<newline>Interview 1 with Jean Carlomusto (2002):\<newline>[Page 7] d\<newline>\<newline>Interview 1 with Jean Carlomusto (2002):\<newline>[Page undefined] e'')"
  by (simp add: branchC_def unit_embedding_def find6 groups6 object_entries_def not_index_docs
      js_sort_def size_after_def match_doc1 del: match_document.simps)
    (simp add: corpus6_def registry3_def ranked6_def chunk_line_def header_def jean_def
      show_page_def show_text_def show_pages)

lemma largest6: "largest_group ranked6 = Some ''document1.pdf''"
  by (simp add: largest_group_def sources_in_order_def group_of_def source_of_def ranked6_def)

theorem fallback_largest_group_witness:
  "findAllNamesInQuestion corpus6 (contextualQuery plain_question []) = []
   \<and> unit_embedding (contextualQuery plain_question []) = Inr [1, 0]
   \<and> findRelevantContext corpus6 unit_embedding plain_question [] =
       Inr (Some ''Interview 1 with Jean Carlomusto (2002):\<newline>[Page 12] b\<newline>\<newline>Interview 1 with Jean Carlomusto (2002):\<newline>[Page 7] d\<newline>\<newline>Interview 1 with Jean Carlomusto (2002):\<newline>[Page undefined] e'')
   \<and> largest_group (findSimilarContent corpus6 [1, 0] None) = Some ''document1.pdf''
   \<and> (\<exists>i r. match_document ''document1.pdf'' = Some i
         \<and> map_of (metadata corpus6) i = Some r
         \<and> ''Interview 1 with Jean Carlomusto (2002):\<newline>[Page 12] b\<newline>\<newline>Interview 1 with Jean Carlomusto (2002):\<newline>[Page 7] d\<newline>\<newline>Interview 1 with Jean Carlomusto (2002):\<newline>[Page undefined] e''
             = js_join ''\<newline>\<newline>''
                 (map (cited_chunk i r)
                    (group_of ''document1.pdf'' (findSimilarContent corpus6 [1, 0] None))))"
proof -
  have a: "findAllNamesInQuestion corpus6 (contextualQuery plain_question []) = []"
    by (simp add: cq_plain names_plain)
  have b: "unit_embedding (contextualQuery plain_question []) = Inr [1, 0]"
    by (simp add: unit_embedding_def)
  have c: "findRelevantContext corpus6 unit_embedding plain_question [] =
       Inr (Some ''Interview 1 with Jean Carlomusto (2002):\<newline>[Page 12] b\<newline>\<newline>Interview 1 with Jean Carlomusto (2002):\<newline>[Page 7] d\<newline>\<newline>Interview 1 with Jean Carlomusto (2002):\<newline>[Page undefined] e'')"
    by (simp add: findRelevantContext_def cq_plain names_plain assemble_def branchA_guard_def
        branchB_def branchC6)
  have d: "largest_group (findSimilarContent corpus6 [1, 0] None) = Some ''document1.pdf''"
    by (simp add: find6 largest6)
  from fallback_largest_group [of corpus6 plain_question "[]" "[1, 0]" unit_embedding, OF disjI1 [OF a] b c]
    a b c d show ?thesis by simp
qed

text \<open>With fewer than two matched names the returned context is never the empty string:
  Branches B and C return only when they have chunks.\<close>

lemma js_join_nonempty: "xs \<noteq> [] \<Longrightarrow> hd xs \<noteq> [] \<Longrightarrow> js_join sep xs \<noteq> []"
proof (cases xs)
  case Nil
  assume "xs \<noteq> []"
  with Nil show ?thesis by simp
next
  case (Cons x rest)
  assume "hd xs \<noteq> []"
  with Cons show ?thesis by (cases rest) simp_all
qed

lemma cited_chunk_nonempty: "cited_chunk i r it \<noteq> []"
  by (simp add: cited_chunk_def header_def)

lemma cited_join_nonempty: "xs \<noteq> [] \<Longrightarrow> js_join sep (map (cited_chunk i r) xs) \<noteq> []"
  by (rule js_join_nonempty) (simp_all add: hd_map cited_chunk_nonempty)

lemma branchC_nonempty:
  assumes "branchC e getEmbedding q = Inr (Some ctx)"
  shows "ctx \<noteq> []"
proof -
  from assms obtain qe where emb: "getEmbedding q = Inr qe"
    by (auto simp: branchC_def split: sum.splits)
  from branchC_result [OF emb assms] obtain s i r where
    lg: "largest_group (findSimilarContent e qe None) = Some s"
    and ctx: "ctx = js_join ''\<newline>\<newline>''
                     (map (cited_chunk i r) (group_of s (findSimilarContent e qe None)))"
    by blast
  from lg have "s \<in> set (sources_in_order (findSimilarContent e qe None))"
    unfolding largest_group_def using find_in_set by fast
  then have "s \<in> set (map source_of (findSimilarContent e qe None))"
    by (simp add: sources_in_order_def set_first_occ)
  then have "group_of s (findSimilarContent e qe None) \<noteq> []"
    by (auto simp: group_of_def filter_empty_conv)
  with ctx show ?thesis by (simp add: cited_join_nonempty)
qed

lemma branchB_nonempty:
  assumes "branchB e getEmbedding q names = Inr (Some ctx)"
  shows "ctx \<noteq> []"
proof (cases names)
  case Nil
  with assms show ?thesis by (simp add: branchB_def branchC_nonempty)
next
  case (Cons m others)
  obtain i r where m: "m = (i, r)" by (cases m)
  from assms Cons m obtain qe where emb: "getEmbedding q = Inr qe"
    by (auto simp: branchB_def split: sum.splits)
  let ?sim = "findSimilarContent e qe (Some (documentName i))"
  show ?thesis
  proof (cases "?sim = []")
    case True
    with assms Cons m emb show ?thesis by (simp add: branchB_def branchC_nonempty)
  next
    case False
    have "\<forall>it \<in> set ?sim. chunk_line i (Some r) it = Inr (cited_chunk i r it)"
    proof
      fix it assume "it \<in> set ?sim"
      then have "item_metadata it \<noteq> None" using restricted_has_metadata by fastforce
      then show "chunk_line i (Some r) it = Inr (cited_chunk i r it)" by (rule chunk_line_cited)
    qed
    then have "map_err (chunk_line i (Some r)) ?sim = Inr (map (cited_chunk i r) ?sim)"
      by (rule map_err_total)
    with assms Cons m emb False have "ctx = js_join ''\<newline>\<newline>'' (map (cited_chunk i r) ?sim)"
      by (simp add: branchB_def)
    with False show ?thesis by (simp add: cited_join_nonempty)
  qed
qed

lemma fewer_matches_never_empty:
  assumes "length (findAllNamesInQuestion e (contextualQuery question history)) < 2"
    and "findRelevantContext e getEmbedding question history = Inr (Some ctx)"
  shows "ctx \<noteq> []"
  using assms
  by (simp add: findRelevantContext_def assemble_def branchA_guard_def branchB_nonempty Let_def)

end
